theory Spec2Isabelle
  imports Main
begin

section \<open>Configuration constants and C strings\<close>

text \<open>
  The engine of \<^verbatim>\<open>mcli.h\<close> works on C \<^verbatim>\<open>char\<close> data. A byte is a
  \<^typ>\<open>char\<close>, an array of bytes is a \<^typ>\<open>char list\<close>, and a C string held in an
  array is the part of the array before its first NUL byte.
\<close>

definition MAX_ARGS :: nat where
  "MAX_ARGS = 5"

definition MAX_ARG_LENGTH :: nat where
  "MAX_ARG_LENGTH = 12"

definition CMD_BUFFER_SIZE :: nat where
  "CMD_BUFFER_SIZE = 128"

definition NUL :: char where
  "NUL = CHR 0x00"

definition SP :: char where
  "SP = CHR 0x20"

definition BS :: char where
  "BS = CHR 0x08"

definition DEL :: char where
  "DEL = CHR 0x7F"

definition CR :: char where
  "CR = CHR 0x0D"

definition LF :: char where
  "LF = CHR 0x0A"

definition c_str :: "char list \<Rightarrow> char list" where
  "c_str a = takeWhile (\<lambda>c. c \<noteq> NUL) a"

definition strcmp_eq :: "char list \<Rightarrow> char list \<Rightarrow> bool" where
  "strcmp_eq a b = (c_str a = c_str b)"

section \<open>Command arguments\<close>

text \<open>
  \<^verbatim>\<open>struct CommandArgs { int argc; char argv[MAX_ARGS][MAX_ARG_LENGTH]; }\<close>,
  zero-filled by its constructor. The count never leaves \<open>0..MAX_ARGS\<close>, so it is a
  natural number here.
\<close>

record CommandArgs =
  argc :: nat
  argv :: "char list list"

definition CommandArgs_init :: CommandArgs where
  "CommandArgs_init = \<lparr>argc = 0, argv = replicate MAX_ARGS (replicate MAX_ARG_LENGTH NUL)\<rparr>"

definition arg :: "CommandArgs \<Rightarrow> nat \<Rightarrow> char list" where
  "arg a i = c_str (argv a ! i)"

section \<open>Tokenizer\<close>

text \<open>
  The inner copy loop of \<^verbatim>\<open>parse_command_line\<close>:
  \<^verbatim>\<open>while (*token && *token != ' ' && char_count < MAX_ARG_LENGTH - 1) { *dest++ = *token++; char_count++; }\<close>.
  The token pointer is the list of characters still to read (the end of the list is the
  terminating NUL of \<^verbatim>\<open>temp_buffer\<close>); the result is the copied characters and
  the advanced pointer.
\<close>

fun copy_token :: "char list \<Rightarrow> nat \<Rightarrow> char list \<times> char list" where
  "copy_token [] char_count = ([], [])"
| "copy_token (c # cs) char_count =
     (if c \<noteq> SP \<and> char_count < MAX_ARG_LENGTH - 1
      then (case copy_token cs (char_count + 1) of (d, r) \<Rightarrow> (c # d, r))
      else ([], c # cs))"

text \<open>
  Writing the copied characters and the closing NUL into a slot of \<^verbatim>\<open>argv\<close>;
  the bytes of the slot behind the NUL keep their value.
\<close>

definition store_token :: "char list \<Rightarrow> char list \<Rightarrow> char list" where
  "store_token slot d = d @ NUL # drop (Suc (length d)) slot"

definition skip_spaces :: "char list \<Rightarrow> char list" where
  "skip_spaces token = dropWhile (\<lambda>c. c = SP) token"

text \<open>
  The outer loop \<^verbatim>\<open>while (*token && args.argc < MAX_ARGS - 1)\<close>. Every round
  that does not leave the loop fills one slot, so the free slots decrease.
\<close>

function parse_loop :: "char list \<Rightarrow> CommandArgs \<Rightarrow> CommandArgs" where
  "parse_loop token args =
     (if token \<noteq> [] \<and> argc args < MAX_ARGS - 1 then
        (let token1 = skip_spaces token in
         if token1 = [] then args
         else (case copy_token token1 0 of (d, token2) \<Rightarrow>
                 parse_loop (skip_spaces token2)
                   (args\<lparr>argv := (argv args)[argc args := store_token (argv args ! argc args) d],
                          argc := argc args + 1\<rparr>)))
      else args)"
  by pat_completeness auto
termination
  by (relation "measure (\<lambda>(token, args). (MAX_ARGS - 1) - argc args)") auto

text \<open>
  \<^verbatim>\<open>strncpy(temp_buffer, input, CMD_BUFFER_SIZE-1); temp_buffer[CMD_BUFFER_SIZE-1] = '\0';\<close>
  leaves in \<^verbatim>\<open>temp_buffer\<close> the C string of the input cut to 127 characters.
\<close>

definition parse_command_line :: "char list \<Rightarrow> CommandArgs" where
  "parse_command_line input =
     parse_loop (take (CMD_BUFFER_SIZE - 1) (c_str input)) CommandArgs_init"

section \<open>Byte transport\<close>

text \<open>
  \<^verbatim>\<open>CliIoInterface\<close> is abstract in \<^verbatim>\<open>put_byte\<close>, \<^verbatim>\<open>get_byte\<close> and
  \<^verbatim>\<open>byte_available\<close>. They are realised here by an in-memory transport: \<open>rx\<close>
  holds the bytes that have arrived and are not yet read, \<open>tx\<close> the bytes written to
  the sink so far. Everything else is the default implementation of the class.
\<close>

record cli_io =
  rx :: "char list"
  tx :: "char list"

definition put_byte :: "char \<Rightarrow> cli_io \<Rightarrow> cli_io" where
  "put_byte c io = io\<lparr>tx := tx io @ [c]\<rparr>"

definition byte_available :: "cli_io \<Rightarrow> bool" where
  "byte_available io = (rx io \<noteq> [])"

definition get_byte :: "cli_io \<Rightarrow> char \<times> cli_io" where
  "get_byte io = (case rx io of [] \<Rightarrow> (NUL, io) | c # cs \<Rightarrow> (c, io\<lparr>rx := cs\<rparr>))"

text \<open>\<^verbatim>\<open>for (count = 0; count < len; count++) put_byte(data[count]);\<close>\<close>

fun put_bytes :: "char list \<Rightarrow> cli_io \<Rightarrow> cli_io" where
  "put_bytes [] io = io"
| "put_bytes (c # cs) io = put_bytes cs (put_byte c io)"

text \<open>
  \<^verbatim>\<open>while (count < max_len && byte_available()) buffer[count++] = get_byte();\<close>
  The first argument is the room left in the buffer, \<open>max_len - count\<close>.
\<close>

fun get_bytes :: "nat \<Rightarrow> cli_io \<Rightarrow> char list \<times> cli_io" where
  "get_bytes 0 io = ([], io)"
| "get_bytes (Suc n) io =
     (if byte_available io
      then (case get_byte io of (c, io1) \<Rightarrow>
              (case get_bytes n io1 of (cs, io2) \<Rightarrow> (c # cs, io2)))
      else ([], io))"

definition print :: "char list \<Rightarrow> cli_io \<Rightarrow> cli_io" where
  "print str io = (if length (c_str str) > 0 then put_bytes (c_str str) io else io)"

definition println :: "cli_io \<Rightarrow> cli_io" where
  "println io = print [CR, LF] io"

definition println_str :: "char list \<Rightarrow> cli_io \<Rightarrow> cli_io" where
  "println_str str io = println (print str io)"

definition send_prompt :: "char list \<Rightarrow> cli_io \<Rightarrow> cli_io" where
  "send_prompt p io = print p io"

definition send_backspace :: "cli_io \<Rightarrow> cli_io" where
  "send_backspace io = print [BS, SP, BS] io"

text \<open>
  \<^verbatim>\<open>printf(fmt, a, b)\<close> with the format that \<^verbatim>\<open>print_help\<close> builds,
  \<^verbatim>\<open>"  %-<width>s -- %s\r\n"\<close>: the text is formatted into a buffer of 64 bytes, so at
  most 63 characters of it are sent.
\<close>

definition pad_right :: "nat \<Rightarrow> char list \<Rightarrow> char list" where
  "pad_right width s = s @ replicate (width - length s) SP"

definition format_entry :: "nat \<Rightarrow> char list \<Rightarrow> char list \<Rightarrow> char list" where
  "format_entry width a b =
     [SP, SP] @ pad_right width (c_str a) @ [SP, CHR ''-'', CHR ''-'', SP] @ c_str b @ [CR, LF]"

definition printf_entry :: "nat \<Rightarrow> char list \<Rightarrow> char list \<Rightarrow> cli_io \<Rightarrow> cli_io" where
  "printf_entry width a b io =
     (let text = format_entry width a b; len = length text
      in if len > 0 then put_bytes (take (if len \<ge> 64 then 63 else len) text) io else io)"

section \<open>Engine state\<close>

text \<open>
  A handler receives the arguments and a pointer to the application context. Through
  that pointer it may change the context and write to or read from the transport;
  the private members of the engine are out of its reach.
\<close>

record 'ctx CommandDefinition =
  name :: "char list"
  execute :: "CommandArgs \<Rightarrow> 'ctx \<times> cli_io \<Rightarrow> 'ctx \<times> cli_io"
  help_text :: "char list"

record 'ctx CliEngine =
  io :: cli_io
  ctx :: 'ctx
  commands :: "'ctx CommandDefinition list"
  prompt :: "char list"
  input_buffer :: "char list"
  input_pos :: nat
  last_line_char :: char
  prompt_sent :: bool

text \<open>
  The constructor sets the references and the three initialised members; the bytes of
  \<^verbatim>\<open>input_buffer_\<close> are whatever the memory holds, here the parameter \<open>buf\<close>.
\<close>

definition CliEngine_init ::
  "cli_io \<Rightarrow> 'ctx \<Rightarrow> 'ctx CommandDefinition list \<Rightarrow> char list \<Rightarrow> char list \<Rightarrow> 'ctx CliEngine" where
  "CliEngine_init i c cmds p buf =
     \<lparr>io = i, ctx = c, commands = cmds, prompt = p,
      input_buffer = buf, input_pos = 0, last_line_char = NUL, prompt_sent = False\<rparr>"

definition reset_session :: "'ctx CliEngine \<Rightarrow> 'ctx CliEngine" where
  "reset_session e =
     e\<lparr>input_buffer := replicate CMD_BUFFER_SIZE NUL,
       input_pos := 0,
       last_line_char := NUL,
       prompt_sent := False\<rparr>"

section \<open>Help and dispatch\<close>

definition max_name_len :: "'ctx CommandDefinition list \<Rightarrow> nat" where
  "max_name_len cmds =
     foldl (\<lambda>m d. if length (c_str (name d)) > m then length (c_str (name d)) else m)
       (length ''help'') cmds"

definition print_help :: "'ctx CliEngine \<Rightarrow> 'ctx CliEngine" where
  "print_help e =
     (let width = max_name_len (commands e);
          io1 = println (io e);
          io2 = println_str ''Available commands:'' io1;
          io3 = printf_entry width ''help'' ''Show available commands'' io2;
          io4 = (if length (commands e) > 0
                 then foldl (\<lambda>i d. printf_entry width (name d) (help_text d) i) io3 (commands e)
                 else println_str ''  (No additional commands registered)'' io3)
      in e\<lparr>io := println io4\<rparr>)"

text \<open>
  The search loop of \<^verbatim>\<open>dispatch_command\<close> over the user table, in registration
  order; the first entry whose name equals \<^verbatim>\<open>argv[0]\<close> is executed.
\<close>

fun dispatch_loop ::
  "'ctx CommandDefinition list \<Rightarrow> CommandArgs \<Rightarrow> 'ctx CliEngine \<Rightarrow> bool \<times> 'ctx CliEngine" where
  "dispatch_loop [] args e = (False, e)"
| "dispatch_loop (d # ds) args e =
     (if strcmp_eq (argv args ! 0) (name d)
      then (case execute d args (ctx e, io e) of (c1, io1) \<Rightarrow> (True, e\<lparr>io := io1, ctx := c1\<rparr>))
      else dispatch_loop ds args e)"

definition dispatch_command :: "CommandArgs \<Rightarrow> 'ctx CliEngine \<Rightarrow> bool \<times> 'ctx CliEngine" where
  "dispatch_command args e =
     (if argc args = 0 then (False, e)
      else if strcmp_eq (argv args ! 0) ''help'' then (True, print_help e)
      else if length (commands e) = 0 then (False, e)
      else dispatch_loop (commands e) args e)"

definition execute_command :: "char list \<Rightarrow> 'ctx CliEngine \<Rightarrow> bool \<times> 'ctx CliEngine" where
  "execute_command command_line e = dispatch_command (parse_command_line command_line) e"

section \<open>Input accumulator\<close>

text \<open>
  One round of the \<^verbatim>\<open>for\<close> loop of \<^verbatim>\<open>get_command_input\<close> either goes on with the
  next byte (\<^verbatim>\<open>continue\<close>, or the end of the body) or leaves the function with the
  parsed line (\<^verbatim>\<open>return result\<close>).
\<close>

datatype 'ctx flow = Next "'ctx CliEngine" | Done CommandArgs "'ctx CliEngine"

definition input_step :: "char \<Rightarrow> 'ctx CliEngine \<Rightarrow> 'ctx flow" where
  "input_step in_char e =
     (if in_char = BS \<or> in_char = DEL then
        (if input_pos e > 0
         then Next (e\<lparr>input_pos := input_pos e - 1,
                      input_buffer := (input_buffer e)[input_pos e - 1 := NUL],
                      io := send_backspace (io e)\<rparr>)
         else Next e)
      else if in_char = CR \<or> in_char = LF then
        (if in_char = LF \<and> last_line_char e = CR
         then Next (e\<lparr>last_line_char := in_char\<rparr>)
         else (let e1 = e\<lparr>last_line_char := in_char, io := println (io e)\<rparr>
               in if input_pos e1 > 0
                  then Done (parse_command_line ((input_buffer e1)[input_pos e1 := NUL]))
                         (e1\<lparr>input_buffer := replicate CMD_BUFFER_SIZE NUL, input_pos := 0\<rparr>)
                  else Next (e1\<lparr>prompt_sent := False\<rparr>)))
      else if input_pos e < CMD_BUFFER_SIZE - 1
      then Next (e\<lparr>io := put_byte in_char (io e),
                   input_buffer := (input_buffer e)[input_pos e := in_char],
                   input_pos := input_pos e + 1\<rparr>)
      else Next e)"

fun input_loop :: "char list \<Rightarrow> 'ctx CliEngine \<Rightarrow> 'ctx flow" where
  "input_loop [] e = Next e"
| "input_loop (c # cs) e =
     (case input_step c e of
        Next e1 \<Rightarrow> input_loop cs e1
      | Done result e1 \<Rightarrow> Done result e1)"

text \<open>
  \<^verbatim>\<open>get_command_input\<close>: one read of at most \<^verbatim>\<open>sizeof(read_buffer)\<close> = 32 bytes,
  then the loop over what was read. Both the idle return and the end of the loop give
  an empty \<^verbatim>\<open>CommandArgs()\<close>.
\<close>

definition get_command_input :: "'ctx CliEngine \<Rightarrow> CommandArgs \<times> 'ctx CliEngine" where
  "get_command_input e =
     (case get_bytes 32 (io e) of (read_buffer, io1) \<Rightarrow>
        if length read_buffer = 0 then (CommandArgs_init, e\<lparr>io := io1\<rparr>)
        else (case input_loop read_buffer (e\<lparr>io := io1\<rparr>) of
                Done result e1 \<Rightarrow> (result, e1)
              | Next e1 \<Rightarrow> (CommandArgs_init, e1)))"

section \<open>Session driver\<close>

definition not_found_head :: "char list" where
  "not_found_head = ''Command '' @ [CHR 0x22]"

definition not_found_tail :: "char list" where
  "not_found_tail =
     [CHR 0x22] @ '' not found. Type '' @ [CHR 0x27] @ ''help'' @ [CHR 0x27]
       @ '' for available commands.''"

definition process_input :: "'ctx CliEngine \<Rightarrow> 'ctx CliEngine" where
  "process_input e =
     (let e1 = (if \<not> prompt_sent e
                then e\<lparr>io := send_prompt (prompt e) (io e), prompt_sent := True\<rparr>
                else e)
      in case get_command_input e1 of (args, e2) \<Rightarrow>
           if argc args > 0 then
             (case dispatch_command args e2 of (found, e3) \<Rightarrow>
                (if \<not> found
                 then e3\<lparr>io := println_str not_found_tail
                                (print (argv args ! 0) (print not_found_head (io e3)))\<rparr>
                 else e3)\<lparr>prompt_sent := False\<rparr>)
           else e2)"

text \<open>
  The polling loop of the application: before each call of \<^verbatim>\<open>process_input\<close> a
  chunk of bytes (possibly empty) arrives at the transport.
\<close>

definition deliver :: "char list \<Rightarrow> 'ctx CliEngine \<Rightarrow> 'ctx CliEngine" where
  "deliver chunk e = e\<lparr>io := (io e)\<lparr>rx := rx (io e) @ chunk\<rparr>\<rparr>"

fun poll :: "char list list \<Rightarrow> 'ctx CliEngine \<Rightarrow> 'ctx CliEngine" where
  "poll [] e = e"
| "poll (chunk # chunks) e = poll chunks (process_input (deliver chunk e))"

section \<open>WiFi adapter: telnet framing filter\<close>

text \<open>
  \<^verbatim>\<open>ESP32WiFiIo\<close> keeps a socket and a connection flag, and nothing of the data it
  has read. What \<^verbatim>\<open>recv\<close> did is a parameter of the model: its return value, whether
  \<^verbatim>\<open>errno\<close> is \<^verbatim>\<open>EAGAIN\<close> or \<^verbatim>\<open>EWOULDBLOCK\<close>, and the caller's buffer as
  \<^verbatim>\<open>recv\<close> left it.
\<close>

record ESP32WiFiIo =
  socket_fd :: int
  connected :: bool

definition IAC :: char where
  "IAC = CHR 0xFF"

text \<open>
  The filter loop
  \<^verbatim>\<open>for (int read_pos = 0; read_pos < result; read_pos++)\<close>, with the buffer updated
  in place; \<^verbatim>\<open>read_pos += 2\<close> and the increment of the loop move on by three.
\<close>

function telnet_filter :: "char list \<Rightarrow> nat \<Rightarrow> nat \<Rightarrow> nat \<Rightarrow> char list \<times> nat" where
  "telnet_filter buffer result read_pos write_pos =
     (if read_pos < result then
        (let c = buffer ! read_pos in
         if c = IAC then
           (if read_pos + 2 < result
            then telnet_filter buffer result (read_pos + 2 + 1) write_pos
            else (buffer, write_pos))
         else telnet_filter (buffer[write_pos := c]) result (read_pos + 1) (write_pos + 1))
      else (buffer, write_pos))"
  by pat_completeness auto
termination
  by (relation "measure (\<lambda>(buffer, result, read_pos, write_pos). result - read_pos)") auto

definition ESP32WiFiIo_get_bytes ::
  "ESP32WiFiIo \<Rightarrow> char list \<Rightarrow> int \<Rightarrow> bool \<Rightarrow> nat \<times> char list \<times> ESP32WiFiIo" where
  "ESP32WiFiIo_get_bytes a buffer result would_block =
     (if \<not> connected a \<or> socket_fd a < 0 then (0, buffer, a)
      else if result \<le> 0
      then (0, buffer, if \<not> would_block then a\<lparr>connected := False\<rparr> else a)
      else (case telnet_filter buffer (nat result) 0 0 of
              (buffer1, write_pos) \<Rightarrow> (write_pos, buffer1, a)))"

text \<open>
  The framing rule in the words of the specification, on the received bytes as a
  sequence: an escape byte and the two bytes behind it are left out; an escape byte
  with fewer than two bytes behind it ends the data, and what is left of it is
  thrown away.
\<close>

fun strip_control :: "char list \<Rightarrow> char list" where
  "strip_control [] = []"
| "strip_control (c # cs) =
     (if c = IAC
      then (case cs of a # b # rest \<Rightarrow> strip_control rest | _ \<Rightarrow> [])
      else c # strip_control cs)"

section \<open>Notions used in the statements\<close>

text \<open>
  A regular byte is one that the accumulator neither treats as a backspace nor as a
  line terminator.
\<close>

definition regular :: "char \<Rightarrow> bool" where
  "regular c = (c \<noteq> BS \<and> c \<noteq> DEL \<and> c \<noteq> CR \<and> c \<noteq> LF)"

text \<open>
  The engine after it has accumulated and echoed the regular bytes \<open>l\<close>.
\<close>

definition typed :: "char list \<Rightarrow> 'ctx CliEngine \<Rightarrow> 'ctx CliEngine" where
  "typed l e =
     e\<lparr>io := (io e)\<lparr>tx := tx (io e) @ l\<rparr>,
       input_buffer := take (input_pos e) (input_buffer e) @ l
                         @ drop (input_pos e + length l) (input_buffer e),
       input_pos := input_pos e + length l\<rparr>"

text \<open>
  The engine after the line \<open>l\<close>, typed into an empty buffer, has been closed by the
  terminator \<open>t\<close>: the line and a newline are echoed, the buffer is cleared and the
  terminator is remembered.
\<close>

definition completed :: "char \<Rightarrow> char list \<Rightarrow> 'ctx CliEngine \<Rightarrow> 'ctx CliEngine" where
  "completed t l e =
     e\<lparr>io := (io e)\<lparr>tx := tx (io e) @ l @ [CR, LF]\<rparr>,
       input_buffer := replicate CMD_BUFFER_SIZE NUL,
       input_pos := 0,
       last_line_char := t\<rparr>"

text \<open>
  The engine after the first statement of \<^verbatim>\<open>process_input\<close>: the prompt has been
  written unless it was outstanding already.
\<close>

definition prompted :: "'ctx CliEngine \<Rightarrow> 'ctx CliEngine" where
  "prompted e =
     e\<lparr>io := (io e)\<lparr>tx := tx (io e) @ (if prompt_sent e then [] else c_str (prompt e))\<rparr>,
       prompt_sent := True\<rparr>"

text \<open>
  The three pieces that \<^verbatim>\<open>process_input\<close> prints for an unknown command, as one
  text.
\<close>

definition not_found_message :: "CommandArgs \<Rightarrow> char list" where
  "not_found_message args =
     not_found_head @ arg args 0 @ not_found_tail @ [CR, LF]"

text \<open>
  An application for the examples: its context is the list of the command names its
  handlers were called with, in order. The buffer of a new engine starts with
  arbitrary bytes.
\<close>

definition log_command :: "char list \<Rightarrow> (char list list) CommandDefinition" where
  "log_command n =
     \<lparr>name = n, execute = (\<lambda>args (c, i). (c @ [arg args 0], i)), help_text = ''log the call''\<rparr>"

definition demo_engine :: "char list list \<Rightarrow> (char list list) CliEngine" where
  "demo_engine names =
     CliEngine_init \<lparr>rx = [], tx = []\<rparr> [] (map log_command names) ''> ''
       (replicate CMD_BUFFER_SIZE (CHR ''?''))"

section \<open>Facts about the transport and about C strings\<close>

lemma put_bytes_tx: "put_bytes d i = i\<lparr>tx := tx i @ d\<rparr>"
  by (induction d arbitrary: i) (simp_all add: put_byte_def)

lemma get_bytes_queue: "get_bytes n i = (take n (rx i), i\<lparr>rx := drop n (rx i)\<rparr>)"
proof (induction n arbitrary: i)
  case 0
  show ?case by simp
next
  case (Suc n)
  show ?case
    by (cases "rx i") (simp_all add: byte_available_def get_byte_def Suc)
qed

lemma print_tx: "print s i = i\<lparr>tx := tx i @ c_str s\<rparr>"
  by (simp add: print_def put_bytes_tx)

lemma c_str_no_nul: "NUL \<notin> set s \<Longrightarrow> c_str s = s"
  by (auto simp: c_str_def takeWhile_eq_all_conv)

lemma println_tx: "println i = i\<lparr>tx := tx i @ [CR, LF]\<rparr>"
  by (simp add: println_def print_tx c_str_def CR_def LF_def NUL_def)

lemma c_str_terminated: "c_str (l @ NUL # xs) = c_str l"
  by (induction l) (simp_all add: c_str_def)

lemma c_str_idem: "c_str (c_str l) = c_str l"
  by (simp add: c_str_def)


lemma parse_command_line_c_str: "parse_command_line (c_str l) = parse_command_line l"
  by (simp add: parse_command_line_def c_str_idem)

lemma parse_command_line_terminated: "parse_command_line (l @ NUL # xs) = parse_command_line l"
  by (simp add: parse_command_line_def c_str_terminated)

section \<open>Properties of the tokenizer\<close>

lemma parse_loop_argc:
  "argc args \<le> MAX_ARGS - 1 \<Longrightarrow> argc (parse_loop token args) \<le> MAX_ARGS - 1"
proof (induction token args rule: parse_loop.induct)
  case (1 token args)
  show ?case
  proof (cases "token \<noteq> [] \<and> argc args < MAX_ARGS - 1")
    case False
    then have "parse_loop token args = args"
      by (subst parse_loop.simps) (auto simp del: parse_loop.simps)
    then show ?thesis using "1.prems" by simp
  next
    case go: True
    show ?thesis
    proof (cases "skip_spaces token = []")
      case True
      then have "parse_loop token args = args"
        by (subst parse_loop.simps) (simp del: parse_loop.simps add: Let_def)
      then show ?thesis using "1.prems" by simp
    next
      case False
      obtain d token2 where ct: "copy_token (skip_spaces token) 0 = (d, token2)"
        by (cases "copy_token (skip_spaces token) 0")
      let ?args = "args\<lparr>argv := (argv args)[argc args := store_token (argv args ! argc args) d],
                          argc := argc args + 1\<rparr>"
      have "argc ?args \<le> MAX_ARGS - 1" using go by simp
      from "1.IH" [OF go refl False ct [symmetric] this]
      have "argc (parse_loop (skip_spaces token2) ?args) \<le> MAX_ARGS - 1" .
      moreover have "parse_loop token args = parse_loop (skip_spaces token2) ?args"
        using go False ct by (subst parse_loop.simps) (simp del: parse_loop.simps add: Let_def)
      ultimately show ?thesis by simp
    qed
  qed
qed

lemma parse_command_line_argc: "argc (parse_command_line input) < MAX_ARGS"
proof -
  have "argc (parse_command_line input) \<le> MAX_ARGS - 1"
    unfolding parse_command_line_def
    by (rule parse_loop_argc) (simp add: CommandArgs_init_def)
  then show ?thesis by (simp add: MAX_ARGS_def)
qed

text \<open>
  C2 at its example. The loop of \<^verbatim>\<open>parse_command_line\<close> runs while
  \<^verbatim>\<open>args.argc < MAX_ARGS - 1\<close>. The line
  \<^verbatim>\<open>"led on extra1 extra2 extra3 extra4"\<close> therefore gives four arguments, \<^verbatim>\<open>led\<close>,
  \<^verbatim>\<open>on\<close>, \<^verbatim>\<open>extra1\<close> and \<^verbatim>\<open>extra2\<close>, and both \<^verbatim>\<open>extra3\<close> and
  \<^verbatim>\<open>extra4\<close> are dropped. For every input the count stays below \<open>MAX_ARGS\<close>: the
  fifth slot of \<^verbatim>\<open>argv\<close> is never filled.
\<close>

theorem parse_command_line_at_most_four:
  "argc (parse_command_line ''led on extra1 extra2 extra3 extra4'') = 4
   \<and> map (arg (parse_command_line ''led on extra1 extra2 extra3 extra4'')) [0, 1, 2, 3]
       = [''led'', ''on'', ''extra1'', ''extra2'']
   \<and> argc (parse_command_line input) < MAX_ARGS
   \<and> MAX_ARGS = 5"
proof -
  have "argc (parse_command_line input) < MAX_ARGS"
    by (rule parse_command_line_argc)
  moreover have "argc (parse_command_line ''led on extra1 extra2 extra3 extra4'') = 4"
    by code_simp
  moreover have "map (arg (parse_command_line ''led on extra1 extra2 extra3 extra4'')) [0, 1, 2, 3]
      = [''led'', ''on'', ''extra1'', ''extra2'']"
    by code_simp
  ultimately show ?thesis by (simp add: MAX_ARGS_def)
qed

text \<open>
  C4 at a token of fifteen characters. The copy loop stops after
  \<open>MAX_ARG_LENGTH - 1 = 11\<close> characters and closes the slot, but the token pointer
  stays inside the token: the next round of the outer loop starts a new argument
  there. The one run of non-space characters gives two entries of \<^verbatim>\<open>argv\<close>, and the
  characters beyond the eleventh are not dropped.
\<close>

theorem parse_command_line_long_token_spills:
  "argc (parse_command_line ''abcdefghijklmno'') = 2
   \<and> arg (parse_command_line ''abcdefghijklmno'') 0 = ''abcdefghijk''
   \<and> arg (parse_command_line ''abcdefghijklmno'') 1 = ''lmno''"
  by code_simp

section \<open>Properties of the input accumulator\<close>

lemma regular_simps:
  "regular c = (c \<noteq> CHR 0x08 \<and> c \<noteq> CHR 0x7F \<and> c \<noteq> CHR 0x0D \<and> c \<noteq> CHR 0x0A)"
  by (simp add: regular_def BS_def DEL_def CR_def LF_def)

lemma input_step_regular:
  assumes "regular c" "input_pos e < CMD_BUFFER_SIZE - 1" "length (input_buffer e) = CMD_BUFFER_SIZE"
  shows "input_step c e = Next (typed [c] e)"
  using assms
  by (simp add: input_step_def regular_def typed_def put_byte_def upd_conv_take_nth_drop)

lemma typed_append:
  "input_pos e + length a \<le> length (input_buffer e) \<Longrightarrow> typed (a @ b) e = typed b (typed a e)"
  by (simp add: typed_def ac_simps)

lemma input_loop_regular:
  assumes "list_all regular l" "input_pos e + length l \<le> CMD_BUFFER_SIZE - 1"
    "length (input_buffer e) = CMD_BUFFER_SIZE"
  shows "input_loop (l @ rest) e = input_loop rest (typed l e)"
  using assms
proof (induction l arbitrary: e)
  case Nil
  show ?case by (simp add: typed_def)
next
  case (Cons c l)
  have step: "input_step c e = Next (typed [c] e)"
    using Cons.prems by (intro input_step_regular) simp_all
  have len: "length (input_buffer (typed [c] e)) = CMD_BUFFER_SIZE"
    using Cons.prems by (simp add: typed_def)
  have pos: "input_pos (typed [c] e) + length l \<le> CMD_BUFFER_SIZE - 1"
    using Cons.prems by (simp add: typed_def)
  have "input_loop ((c # l) @ rest) e = input_loop (l @ rest) (typed [c] e)"
    by (simp add: step)
  also have "\<dots> = input_loop rest (typed l (typed [c] e))"
    using Cons.prems(1) pos len by (intro Cons.IH) simp_all
  also have "typed l (typed [c] e) = typed (c # l) e"
    using typed_append [of e "[c]" l] Cons.prems by simp
  finally show ?case .
qed

lemma input_step_terminator:
  assumes "t = CR \<or> t = LF" "\<not> (t = LF \<and> last_line_char e = CR)" "0 < input_pos e"
  shows "input_step t e =
           Done (parse_command_line ((input_buffer e)[input_pos e := NUL]))
             (e\<lparr>last_line_char := t, io := println (io e),
                input_buffer := replicate CMD_BUFFER_SIZE NUL, input_pos := 0\<rparr>)"
  using assms by (auto simp: input_step_def Let_def BS_def DEL_def CR_def LF_def)

lemma input_loop_line:
  assumes reg: "list_all regular l" and ne: "l \<noteq> []" and len: "length l \<le> CMD_BUFFER_SIZE - 1"
    and buf: "length (input_buffer e) = CMD_BUFFER_SIZE" and pos: "input_pos e = 0"
    and t: "t = CR \<or> t = LF" and nosup: "\<not> (t = LF \<and> last_line_char e = CR)"
  shows "input_loop (l @ t # rest) e = Done (parse_command_line l) (completed t l e)"
proof -
  have "input_loop (l @ t # rest) e = input_loop (t # rest) (typed l e)"
    using reg len buf pos by (intro input_loop_regular) simp_all
  moreover have "input_step t (typed l e) =
      Done (parse_command_line ((input_buffer (typed l e))[input_pos (typed l e) := NUL]))
        ((typed l e)\<lparr>last_line_char := t, io := println (io (typed l e)),
                input_buffer := replicate CMD_BUFFER_SIZE NUL, input_pos := 0\<rparr>)"
    using t nosup ne by (intro input_step_terminator) (simp_all add: typed_def)
  moreover have "(input_buffer (typed l e))[input_pos (typed l e) := NUL]
      = l @ NUL # drop (Suc (length l)) (input_buffer e)"
    using pos len buf by (simp add: typed_def list_update_append upd_conv_take_nth_drop CMD_BUFFER_SIZE_def drop_Suc_Cons Cons_nth_drop_Suc)
  moreover have "(typed l e)\<lparr>last_line_char := t, io := println (io (typed l e)),
                input_buffer := replicate CMD_BUFFER_SIZE NUL, input_pos := 0\<rparr> = completed t l e"
    by (simp add: typed_def completed_def println_tx)
  ultimately show ?thesis
    by (simp add: parse_command_line_terminated)
qed

lemma input_step_LF_suppressed_iff:
  "(input_step LF e = Next (e\<lparr>last_line_char := LF\<rparr>)) = (last_line_char e = CR)"
proof (cases "last_line_char e = CR")
  case True
  then show ?thesis by (simp add: input_step_def LF_def BS_def DEL_def CR_def)
next
  case False
  have neq: "e1 = e2 \<Longrightarrow> tx (io e1) = tx (io e2)" for e1 e2 :: "'a CliEngine" by simp
  have "input_step LF e \<noteq> Next (e\<lparr>last_line_char := LF\<rparr>)"
  proof
    assume a: "input_step LF e = Next (e\<lparr>last_line_char := LF\<rparr>)"
    show False
    proof (cases "0 < input_pos e")
      case True
      then show False using a False
        by (simp add: input_step_def Let_def LF_def BS_def DEL_def CR_def)
    next
      case z: False
      then have "e\<lparr>last_line_char := LF, io := println (io e), prompt_sent := False\<rparr>
          = e\<lparr>last_line_char := LF\<rparr>"
        using a False by (simp add: input_step_def Let_def LF_def BS_def DEL_def CR_def)
      from neq [OF this] show False by (simp add: println_tx)
    qed
  qed
  then show ?thesis using False by simp
qed

lemma input_step_CR_then_LF:
  "case input_step CR s of
     Next s1 \<Rightarrow> input_step LF s1 = Next (s1\<lparr>last_line_char := LF\<rparr>)
   | Done r s1 \<Rightarrow> input_step LF s1 = Next (s1\<lparr>last_line_char := LF\<rparr>)"
proof -
  have "last_line_char s1 = CR" if "input_step CR s = Next s1" for s1
    using that by (auto simp: input_step_def Let_def CR_def BS_def DEL_def LF_def split: if_splits)
  moreover have "last_line_char s1 = CR" if "input_step CR s = Done r s1" for r s1
    using that by (auto simp: input_step_def Let_def CR_def BS_def DEL_def LF_def split: if_splits)
  ultimately show ?thesis
    by (cases "input_step CR s") (simp_all add: input_step_LF_suppressed_iff)
qed

lemma input_step_empty_line:
  assumes "t = CR \<or> t = LF" "\<not> (t = LF \<and> last_line_char e = CR)" "input_pos e = 0"
  shows "input_step t e =
           Next (e\<lparr>last_line_char := t, io := (io e)\<lparr>tx := tx (io e) @ [CR, LF]\<rparr>, prompt_sent := False\<rparr>)"
  using assms by (auto simp: input_step_def Let_def BS_def DEL_def CR_def LF_def println_tx)

text \<open>
  C5. A line of regular bytes typed into an empty buffer and closed by CR LF is handed
  to the tokenizer once: the CR completes it, and the LF is either lost with the rest
  of the same read or, when it arrives in a later read, passed over without an echo and
  without a second line. For every state of the engine, an LF changes nothing but the
  remembered terminator exactly when the remembered terminator is CR, and in every
  state the LF that follows a CR is passed over in this way. From an empty
  buffer whose remembered terminator is not CR, two LF bytes give two newline echoes,
  clear the prompt flag and complete no line.
\<close>

theorem crlf_one_line:
  assumes "list_all regular l" and "l \<noteq> []" and "length l \<le> CMD_BUFFER_SIZE - 1"
    and "length (input_buffer e) = CMD_BUFFER_SIZE" and "input_pos e = 0"
  shows "input_loop (l @ [CR, LF]) e = Done (parse_command_line l) (completed CR l e)
    \<and> input_loop (l @ [CR]) e = Done (parse_command_line l) (completed CR l e)
    \<and> input_loop [LF] (completed CR l e) = Next ((completed CR l e)\<lparr>last_line_char := LF\<rparr>)
    \<and> (\<forall>s :: 'a CliEngine.
          (input_step LF s = Next (s\<lparr>last_line_char := LF\<rparr>)) = (last_line_char s = CR))
    \<and> (\<forall>s :: 'a CliEngine.
          case input_step CR s of
            Next s1 \<Rightarrow> input_step LF s1 = Next (s1\<lparr>last_line_char := LF\<rparr>)
          | Done r s1 \<Rightarrow> input_step LF s1 = Next (s1\<lparr>last_line_char := LF\<rparr>))
    \<and> (last_line_char e \<noteq> CR \<longrightarrow>
           input_loop [LF, LF] e =
             Next (e\<lparr>last_line_char := LF,
                     io := (io e)\<lparr>tx := tx (io e) @ [CR, LF] @ [CR, LF]\<rparr>,
                     prompt_sent := False\<rparr>))"
proof (intro conjI allI impI)
  show "input_loop (l @ [CR, LF]) e = Done (parse_command_line l) (completed CR l e)"
    using assms by (intro input_loop_line) (simp_all add: CR_def LF_def)
  show "input_loop (l @ [CR]) e = Done (parse_command_line l) (completed CR l e)"
    using assms by (intro input_loop_line) (simp_all add: CR_def LF_def)
  show "input_loop [LF] (completed CR l e) = Next ((completed CR l e)\<lparr>last_line_char := LF\<rparr>)"
    using input_step_LF_suppressed_iff [of "completed CR l e"]
    by (simp add: completed_def)
  show "(input_step LF s = Next (s\<lparr>last_line_char := LF\<rparr>)) = (last_line_char s = CR)"
    for s :: "'a CliEngine"
    by (rule input_step_LF_suppressed_iff)
  show "case input_step CR s of
            Next s1 \<Rightarrow> input_step LF s1 = Next (s1\<lparr>last_line_char := LF\<rparr>)
          | Done r s1 \<Rightarrow> input_step LF s1 = Next (s1\<lparr>last_line_char := LF\<rparr>)"
    for s :: "'a CliEngine"
    by (rule input_step_CR_then_LF)
  show "input_loop [LF, LF] e =
             Next (e\<lparr>last_line_char := LF,
                     io := (io e)\<lparr>tx := tx (io e) @ [CR, LF] @ [CR, LF]\<rparr>,
                     prompt_sent := False\<rparr>)" if "last_line_char e \<noteq> CR"
    using that assms(5) by (simp add: input_step_empty_line CR_def LF_def)
qed

theorem crlf_one_line_witness:
  "list_all regular ''led on'' \<and> ''led on'' \<noteq> [] \<and> length ''led on'' \<le> CMD_BUFFER_SIZE - 1
   \<and> length (input_buffer (demo_engine [])) = CMD_BUFFER_SIZE \<and> input_pos (demo_engine []) = 0
   \<and> input_loop (''led on'' @ [CR, LF]) (demo_engine [])
       = Done (parse_command_line ''led on'') (completed CR ''led on'' (demo_engine []))
   \<and> input_loop [LF] (completed CR ''led on'' (demo_engine []))
       = Next ((completed CR ''led on'' (demo_engine []))\<lparr>last_line_char := LF\<rparr>)"
proof -
  have h1: "list_all regular ''led on''" by (simp add: regular_simps)
  have h2: "''led on'' \<noteq> []" by simp
  have h3: "length ''led on'' \<le> CMD_BUFFER_SIZE - 1" by (simp add: CMD_BUFFER_SIZE_def)
  have h4: "length (input_buffer (demo_engine [])) = CMD_BUFFER_SIZE"
    by (simp add: demo_engine_def CliEngine_init_def)
  have h5: "input_pos (demo_engine []) = 0"
    by (simp add: demo_engine_def CliEngine_init_def)
  from crlf_one_line [OF h1 h2 h3 h4 h5]
  show ?thesis using h1 h2 h3 h4 h5 by blast
qed

section \<open>Properties of help and dispatch\<close>

lemma printf_entry_tx:
  "printf_entry w a b i = i\<lparr>tx := tx i @ take 63 (format_entry w a b)\<rparr>"
  by (simp add: printf_entry_def Let_def put_bytes_tx)

lemma printf_entries_tx:
  "foldl (\<lambda>i d. printf_entry w (name d) (help_text d) i) i cmds
     = i\<lparr>tx := tx i @ concat (map (\<lambda>d. take 63 (format_entry w (name d) (help_text d))) cmds)\<rparr>"
  by (induction cmds arbitrary: i) (simp_all add: printf_entry_tx)

lemma print_help_tx:
  "print_help e =
     e\<lparr>io := (io e)\<lparr>tx := tx (io e) @ [CR, LF] @ ''Available commands:'' @ [CR, LF]
        @ take 63 (format_entry (max_name_len (commands e)) ''help'' ''Show available commands'')
        @ (if commands e = [] then ''  (No additional commands registered)'' @ [CR, LF]
           else concat (map (\<lambda>d. take 63 (format_entry (max_name_len (commands e)) (name d) (help_text d)))
                          (commands e)))
        @ [CR, LF]\<rparr>\<rparr>"
  unfolding print_help_def Let_def printf_entries_tx
  by (simp add: println_tx println_str_def print_tx printf_entry_tx c_str_def NUL_def)


lemma dispatch_loop_session:
  "dispatch_loop cmds args
      (e\<lparr>input_buffer := b, input_pos := p, last_line_char := c, prompt_sent := q\<rparr>)
     = (case dispatch_loop cmds args e of
          (found, e1) \<Rightarrow>
            (found, e1\<lparr>input_buffer := b, input_pos := p, last_line_char := c, prompt_sent := q\<rparr>))"
  by (induction cmds) (simp_all split: prod.splits)

lemma dispatch_command_session:
  "dispatch_command args
      (e\<lparr>input_buffer := b, input_pos := p, last_line_char := c, prompt_sent := q\<rparr>)
     = (case dispatch_command args e of
          (found, e1) \<Rightarrow>
            (found, e1\<lparr>input_buffer := b, input_pos := p, last_line_char := c, prompt_sent := q\<rparr>))"
  by (simp add: dispatch_command_def dispatch_loop_session print_help_tx)

lemma dispatch_loop_keeps:
  "dispatch_loop cmds args e = (found, e1) \<Longrightarrow>
     input_buffer e1 = input_buffer e \<and> input_pos e1 = input_pos e
     \<and> last_line_char e1 = last_line_char e \<and> prompt_sent e1 = prompt_sent e
     \<and> commands e1 = commands e \<and> prompt e1 = prompt e"
  by (induction cmds) (auto split: if_splits prod.splits)

lemma dispatch_command_keeps:
  "dispatch_command args e = (found, e1) \<Longrightarrow>
     input_buffer e1 = input_buffer e \<and> input_pos e1 = input_pos e
     \<and> last_line_char e1 = last_line_char e \<and> prompt_sent e1 = prompt_sent e
     \<and> commands e1 = commands e \<and> prompt e1 = prompt e"
  by (auto simp: dispatch_command_def print_help_tx split: if_splits dest: dispatch_loop_keeps)


text \<open>
  C7. When \<^verbatim>\<open>argv[0]\<close> is \<^verbatim>\<open>help\<close>, \<^verbatim>\<open>dispatch_command\<close> returns true
  and its whole effect is that of \<^verbatim>\<open>print_help\<close>: the listing is appended to the sink,
  and the context is left as it was. The listing is built from the names and help texts
  of the table only, so no handler of the table runs, whatever its name is.
\<close>

theorem help_builtin_shadows:
  assumes "1 \<le> argc args" and "arg args 0 = ''help''"
  shows "dispatch_command args e = (True, print_help e)
    \<and> print_help e =
        e\<lparr>io := (io e)\<lparr>tx := tx (io e) @ [CR, LF] @ ''Available commands:'' @ [CR, LF]
          @ take 63 (format_entry (max_name_len (commands e)) ''help'' ''Show available commands'')
          @ (if commands e = [] then ''  (No additional commands registered)'' @ [CR, LF]
             else concat (map (\<lambda>d. take 63 (format_entry (max_name_len (commands e)) (name d) (help_text d)))
                            (commands e)))
          @ [CR, LF]\<rparr>\<rparr>"
proof -
  have "c_str ''help'' = ''help''" by (simp add: c_str_def NUL_def)
  then have "strcmp_eq (argv args ! 0) ''help''"
    using assms(2) by (simp add: strcmp_eq_def arg_def)
  then have "dispatch_command args e = (True, print_help e)"
    using assms(1) by (simp add: dispatch_command_def)
  then show ?thesis using print_help_tx [of e] by simp
qed

theorem help_builtin_shadows_witness:
  "1 \<le> argc (parse_command_line ''help'')
   \<and> arg (parse_command_line ''help'') 0 = ''help''
   \<and> fst (dispatch_command (parse_command_line ''help'') (demo_engine [''help'']))
   \<and> ctx (snd (dispatch_command (parse_command_line ''help'') (demo_engine [''help'']))) = []"
proof -
  have h1: "1 \<le> argc (parse_command_line ''help'')" by code_simp
  have h2: "arg (parse_command_line ''help'') 0 = ''help''" by code_simp
  have c: "ctx (demo_engine [''help'']) = []"
    by (simp add: demo_engine_def CliEngine_init_def)
  from help_builtin_shadows [OF h1 h2, of "demo_engine [''help'']"]
  have "dispatch_command (parse_command_line ''help'') (demo_engine [''help''])
          = (True, print_help (demo_engine [''help'']))"
    and "ctx (print_help (demo_engine [''help''])) = ctx (demo_engine [''help''])"
    by simp_all
  then show ?thesis using h1 h2 c by simp
qed

text \<open>
  C10. \<^verbatim>\<open>execute_command\<close> leaves the accumulation buffer, the cursor, the
  remembered terminator and the prompt flag as they were, and it does not read them:
  with any other values in these four members it returns the same answer and has the
  same effect, and the other values are still in place afterwards. Handlers reach the
  context and the transport only.
\<close>

theorem execute_command_frame:
  "input_buffer (snd (execute_command line e)) = input_buffer e
   \<and> input_pos (snd (execute_command line e)) = input_pos e
   \<and> last_line_char (snd (execute_command line e)) = last_line_char e
   \<and> prompt_sent (snd (execute_command line e)) = prompt_sent e
   \<and> execute_command line
        (e\<lparr>input_buffer := b, input_pos := p, last_line_char := c, prompt_sent := q\<rparr>)
      = (fst (execute_command line e),
         (snd (execute_command line e))
           \<lparr>input_buffer := b, input_pos := p, last_line_char := c, prompt_sent := q\<rparr>)"
proof -
  obtain found e1 where r: "dispatch_command (parse_command_line line) e = (found, e1)"
    by (cases "dispatch_command (parse_command_line line) e")
  from dispatch_command_keeps [OF r] r show ?thesis
    by (simp add: execute_command_def dispatch_command_session)
qed

theorem execute_command_frame_witness:
  "input_pos (snd (execute_command ''a'' ((demo_engine [''a''])\<lparr>input_pos := 3\<rparr>))) = 3"
  using execute_command_frame [of "''a''" "(demo_engine [''a''])\<lparr>input_pos := 3\<rparr>"]
  by simp

section \<open>Properties of the session driver\<close>

lemma get_command_input_line:
  assumes rx: "rx (io e) = l @ t # rest" and room: "length (l @ t # rest) \<le> 32"
    and reg: "list_all regular l" and ne: "l \<noteq> []"
    and buf: "length (input_buffer e) = CMD_BUFFER_SIZE" and pos: "input_pos e = 0"
    and t: "t = CR \<or> t = LF" and nosup: "\<not> (t = LF \<and> last_line_char e = CR)"
  shows "get_command_input e
           = (parse_command_line l, completed t l (e\<lparr>io := (io e)\<lparr>rx := []\<rparr>\<rparr>))"
proof -
  have gb: "get_bytes 32 (io e) = (l @ t # rest, (io e)\<lparr>rx := []\<rparr>)"
    using rx room by (simp add: get_bytes_queue)
  have "length l \<le> CMD_BUFFER_SIZE - 1"
    using room by (simp add: CMD_BUFFER_SIZE_def)
  then have "input_loop (l @ t # rest) (e\<lparr>io := (io e)\<lparr>rx := []\<rparr>\<rparr>)
      = Done (parse_command_line l) (completed t l (e\<lparr>io := (io e)\<lparr>rx := []\<rparr>\<rparr>))"
    using reg ne buf pos t nosup by (intro input_loop_line) simp_all
  then show ?thesis
    by (simp add: get_command_input_def gb)
qed

lemma not_found_tx:
  "println_str not_found_tail (print (argv args ! 0) (print not_found_head i))
     = i\<lparr>tx := tx i @ not_found_message args\<rparr>"
  by (simp add: println_str_def println_tx print_tx not_found_message_def arg_def c_str_def
      not_found_tail_def not_found_head_def NUL_def)

lemma process_input_line:
  assumes rx: "rx (io e) = []" and room: "length (l @ t # rest) \<le> 32"
    and reg: "list_all regular l" and ne: "l \<noteq> []"
    and buf: "length (input_buffer e) = CMD_BUFFER_SIZE" and pos: "input_pos e = 0"
    and t: "t = CR \<or> t = LF" and nosup: "\<not> (t = LF \<and> last_line_char e = CR)"
  shows "process_input (deliver (l @ t # rest) e)
           = (if argc (parse_command_line l) > 0
              then (case dispatch_command (parse_command_line l) (completed t l (prompted e)) of
                      (found, e3) \<Rightarrow>
                        (if \<not> found
                         then e3\<lparr>io := (io e3)\<lparr>tx := tx (io e3) @ not_found_message (parse_command_line l)\<rparr>\<rparr>
                         else e3)\<lparr>prompt_sent := False\<rparr>)
              else completed t l (prompted e))"
proof -
  let ?d = "deliver (l @ t # rest) e"
  let ?e1 = "if \<not> prompt_sent ?d
             then ?d\<lparr>io := send_prompt (prompt ?d) (io ?d), prompt_sent := True\<rparr> else ?d"
  have g: "get_command_input ?e1
      = (parse_command_line l, completed t l (?e1\<lparr>io := (io ?e1)\<lparr>rx := []\<rparr>\<rparr>))"
    using assms
    by (intro get_command_input_line [where rest = rest])
       (simp_all add: deliver_def send_prompt_def print_tx)
  have c: "completed t l (?e1\<lparr>io := (io ?e1)\<lparr>rx := []\<rparr>\<rparr>) = completed t l (prompted e)"
    using rx by (simp add: completed_def prompted_def deliver_def send_prompt_def print_tx)
  show ?thesis
    unfolding process_input_def Let_def g c
    by (simp add: not_found_tx split: prod.splits)
qed

lemma rest_of_read_has_no_effect:
  assumes "rx (io e) = []" and "length (l @ t # rest) \<le> 32"
    and "list_all regular l" and "l \<noteq> []"
    and "length (input_buffer e) = CMD_BUFFER_SIZE" and "input_pos e = 0"
    and "t = CR \<or> t = LF" and "\<not> (t = LF \<and> last_line_char e = CR)"
  shows "process_input (deliver (l @ t # rest) e) = process_input (deliver (l @ [t]) e)"
proof -
  have "length (l @ [t]) \<le> 32" using assms(2) by simp
  with assms show ?thesis
    by (simp add: process_input_line [of e l t rest] process_input_line [of e l t "[]"])
qed




text \<open>
  C3 at a line of two spaces. The line completes (the buffer is not empty when CR
  arrives), but it has no argument, and \<^verbatim>\<open>process_input\<close> clears the prompt flag
  only under \<^verbatim>\<open>args.argc > 0\<close>: the flag stays set and the next call writes no
  prompt. A CR on an empty buffer does clear the flag, and the next call prompts
  again.
\<close>

theorem spaces_line_keeps_prompt_flag: "prompt_sent (poll [[SP, SP, CR]] (demo_engine []))
  \<and> tx (io (poll [[SP, SP, CR], []] (demo_engine []))) = ''> '' @ [SP, SP] @ [CR, LF]
  \<and> \<not> prompt_sent (poll [[CR]] (demo_engine []))
  \<and> tx (io (poll [[CR], []] (demo_engine []))) = ''> '' @ [CR, LF] @ ''> ''"
  by code_simp

text \<open>
  C1 at the bytes \<^verbatim>\<open>a LF b LF\<close>, with handlers that log their calls. Read in one
  call, the first line is dispatched and \<^verbatim>\<open>get_command_input\<close> returns from inside
  its loop: the rest of the local read buffer is gone, the transport is empty, and
  later calls find nothing. Read in two calls, both lines are dispatched. (In general
  the bytes behind the first completed line of a read have no effect at all,
  \<open>rest_of_read_has_no_effect\<close>.)
\<close>

theorem one_read_loses_second_line: "ctx (poll [''a'' @ [LF] @ ''b'' @ [LF]] (demo_engine [''a'', ''b''])) = [''a'']
  \<and> rx (io (poll [''a'' @ [LF] @ ''b'' @ [LF]] (demo_engine [''a'', ''b'']))) = []
  \<and> input_pos (poll [''a'' @ [LF] @ ''b'' @ [LF]] (demo_engine [''a'', ''b''])) = 0
  \<and> ctx (poll [''a'' @ [LF] @ ''b'' @ [LF], [], []] (demo_engine [''a'', ''b''])) = [''a'']
  \<and> ctx (poll [''a'' @ [LF], ''b'' @ [LF]] (demo_engine [''a'', ''b''])) = [''a'', ''b'']"
  by code_simp

section \<open>Properties of the session reset\<close>

lemma reset_session_forgets:
  "reset_session (e\<lparr>input_buffer := b, input_pos := p, last_line_char := c, prompt_sent := q\<rparr>)
     = reset_session e"
  by (simp add: reset_session_def)

text \<open>
  C9. After \<^verbatim>\<open>reset_session\<close> the buffer is zero, the cursor is 0, the remembered
  terminator is 0 and the prompt flag is clear. Whatever these four members held before
  the reset, every later run of the polling loop is the same as if they had held
  anything else. The first line completed after the reset is tokenized from exactly
  the bytes typed after the reset.
\<close>

theorem reset_session_discards_partial_line:
  "input_buffer (reset_session e) = replicate CMD_BUFFER_SIZE NUL
   \<and> input_pos (reset_session e) = 0
   \<and> last_line_char (reset_session e) = NUL
   \<and> \<not> prompt_sent (reset_session e)
   \<and> poll chunks
         (reset_session
            (e\<lparr>input_buffer := b, input_pos := p, last_line_char := c, prompt_sent := q\<rparr>))
       = poll chunks (reset_session e)
   \<and> (list_all regular l \<and> l \<noteq> [] \<and> length l \<le> CMD_BUFFER_SIZE - 1 \<and> (t = CR \<or> t = LF)
        \<longrightarrow> input_loop (l @ t # rest) (reset_session e)
              = Done (parse_command_line l) (completed t l (reset_session e)))"
proof -
  have "input_loop (l @ t # rest) (reset_session e)
          = Done (parse_command_line l) (completed t l (reset_session e))"
    if "list_all regular l \<and> l \<noteq> [] \<and> length l \<le> CMD_BUFFER_SIZE - 1 \<and> (t = CR \<or> t = LF)"
    using that by (intro input_loop_line) (simp_all add: reset_session_def NUL_def CR_def)
  then show ?thesis
    by (simp add: reset_session_forgets) (simp add: reset_session_def)
qed

theorem reset_session_discards_partial_line_witness:
  "list_all regular ''ls'' \<and> ''ls'' \<noteq> [] \<and> length ''ls'' \<le> CMD_BUFFER_SIZE - 1
   \<and> input_loop (''ls'' @ [CR])
         (reset_session ((demo_engine [''ls''])\<lparr>input_buffer := ''rm '' @ replicate 125 NUL,
                           input_pos := 3, last_line_char := LF, prompt_sent := True\<rparr>))
       = Done (parse_command_line ''ls'') (completed CR ''ls'' (reset_session (demo_engine [''ls''])))
   \<and> arg (parse_command_line ''ls'') 0 = ''ls''"
proof -
  let ?e = "(demo_engine [''ls''])\<lparr>input_buffer := ''rm '' @ replicate 125 NUL,
                           input_pos := 3, last_line_char := LF, prompt_sent := True\<rparr>"
  have h: "list_all regular ''ls'' \<and> ''ls'' \<noteq> [] \<and> length ''ls'' \<le> CMD_BUFFER_SIZE - 1
           \<and> (CR = CR \<or> CR = LF)"
    by (simp add: regular_simps CMD_BUFFER_SIZE_def)
  have a: "arg (parse_command_line ''ls'') 0 = ''ls''" by code_simp
  have f: "reset_session ?e = reset_session (demo_engine [''ls''])"
    by (rule reset_session_forgets)
  from reset_session_discards_partial_line
         [where e = ?e and l = "''ls''" and t = CR and rest = "[]"]
  have "input_loop (''ls'' @ [CR]) (reset_session ?e)
          = Done (parse_command_line ''ls'') (completed CR ''ls'' (reset_session ?e))"
    using h by blast
  then show ?thesis using h a f by simp
qed

section \<open>Properties of the telnet framing filter\<close>

lemma strip_control_short: "length cs < 2 \<Longrightarrow> strip_control (IAC # cs) = []"
  by (cases cs) (auto split: list.splits)

lemma strip_control_data: "IAC \<notin> set xs \<Longrightarrow> strip_control (xs @ ys) = xs @ strip_control ys"
  by (induction xs) auto

lemma telnet_filter_inv:
  "write_pos \<le> read_pos \<and> read_pos \<le> result \<Longrightarrow> result \<le> length buffer \<Longrightarrow>
   telnet_filter buffer result read_pos write_pos = (b, n) \<Longrightarrow>
   length b = length buffer \<and> n \<le> result \<and>
   take n b = take write_pos buffer @ strip_control (drop read_pos (take result buffer))"
proof (induction buffer result read_pos write_pos rule: telnet_filter.induct)
  case (1 buffer result read_pos write_pos)
  show ?case
  proof (cases "read_pos < result")
    case False
    with "1.prems" show ?thesis by simp
  next
    case True
    then have split: "drop read_pos (take result buffer)
         = buffer ! read_pos # drop (Suc read_pos) (take result buffer)"
      using "1.prems"(2) by (simp add: Cons_nth_drop_Suc [symmetric])
    show ?thesis
    proof (cases "buffer ! read_pos = IAC")
      case iac: True
      show ?thesis
      proof (cases "read_pos + 2 < result")
        case long: True
        then have d3: "drop (Suc read_pos) (take result buffer)
            = buffer ! Suc read_pos # buffer ! Suc (Suc read_pos)
                # drop (Suc (Suc (Suc read_pos))) (take result buffer)"
          using "1.prems"(2) by (simp add: Cons_nth_drop_Suc [symmetric])
        have e3: "read_pos + 2 + 1 = Suc (Suc (Suc read_pos))" by simp
        have r: "telnet_filter buffer result (read_pos + 2 + 1) write_pos = (b, n)"
          using "1.prems"(3) True iac long by (simp add: Let_def)
        have "write_pos \<le> read_pos + 2 + 1 \<and> read_pos + 2 + 1 \<le> result"
          using "1.prems"(1) long by simp
        from "1.IH"(1) [OF True refl iac long this "1.prems"(2) r]
        show ?thesis using split d3 iac by (simp add: e3)
      next
        case short: False
        then have "length (drop (Suc read_pos) (take result buffer)) < 2"
          using "1.prems"(2) by simp
        then have "strip_control (drop read_pos (take result buffer)) = []"
          using split iac by (simp only: strip_control_short)
        moreover have "b = buffer" "n = write_pos"
          using "1.prems"(3) True iac short by (simp_all add: Let_def)
        ultimately show ?thesis using "1.prems" True by simp
      qed
    next
      case data: False
      let ?b1 = "buffer[write_pos := buffer ! read_pos]"
      have r: "telnet_filter ?b1 result (read_pos + 1) (write_pos + 1) = (b, n)"
        using "1.prems"(3) True data by (simp add: Let_def)
      have le: "write_pos + 1 \<le> read_pos + 1 \<and> read_pos + 1 \<le> result"
        using "1.prems"(1) True by simp
      have len: "result \<le> length ?b1" using "1.prems"(2) by simp
      from "1.IH"(2) [OF True refl data le len r]
      have ih: "length b = length ?b1 \<and> n \<le> result \<and>
         take n b = take (write_pos + 1) ?b1 @ strip_control (drop (read_pos + 1) (take result ?b1))" .
      have t1: "take (write_pos + 1) ?b1 = take write_pos buffer @ [buffer ! read_pos]"
        using "1.prems" True by (simp add: take_Suc_conv_app_nth)
      have t2: "drop (read_pos + 1) (take result ?b1) = drop (Suc read_pos) (take result buffer)"
        using "1.prems"(1) by (simp add: take_update_swap drop_update_cancel)
      show ?thesis using ih t1 t2 split data by simp
    qed
  qed
qed

text \<open>
  C6. On a connected adapter, when \<^verbatim>\<open>recv\<close> has put \<open>result > 0\<close> bytes into the
  buffer, \<^verbatim>\<open>get_bytes\<close> returns the number of bytes that the framing rule keeps and
  leaves exactly these bytes, in order and without gaps, at the front of the same
  buffer; the adapter keeps nothing for the next call. The framing rule leaves data
  bytes alone, removes an escape byte with the two bytes behind it, and ends the data
  at an escape byte that has fewer than two bytes behind it.
\<close>

theorem get_bytes_strips_control:
  assumes "connected a" and "0 \<le> socket_fd a" and "0 < result" and "nat result \<le> length buffer"
  shows "(case ESP32WiFiIo_get_bytes a buffer result would_block of
            (count, buffer1, a1) \<Rightarrow>
              count = length (strip_control (take (nat result) buffer))
              \<and> take count buffer1 = strip_control (take (nat result) buffer)
              \<and> length buffer1 = length buffer
              \<and> a1 = a)
         \<and> (IAC \<notin> set xs \<longrightarrow> strip_control (xs @ IAC # x # y # rest) = xs @ strip_control rest)
         \<and> (IAC \<notin> set xs \<longrightarrow> strip_control xs = xs)
         \<and> (IAC \<notin> set xs \<and> length cs < 2 \<longrightarrow> strip_control (xs @ IAC # cs) = xs)"
proof -
  obtain b n where f: "telnet_filter buffer (nat result) 0 0 = (b, n)"
    by (cases "telnet_filter buffer (nat result) 0 0")
  from telnet_filter_inv [OF _ assms(4) f]
  have inv: "length b = length buffer" "n \<le> nat result"
    "take n b = strip_control (take (nat result) buffer)"
    by simp_all
  have "length (take n b) = n" using inv(1,2) assms(4) by simp
  then have n: "n = length (strip_control (take (nat result) buffer))"
    using inv(3) by simp
  have g: "ESP32WiFiIo_get_bytes a buffer result would_block = (n, b, a)"
    using assms(1-3) f by (simp add: ESP32WiFiIo_get_bytes_def)
  have s1: "IAC \<notin> set xs \<longrightarrow> strip_control (xs @ IAC # x # y # rest) = xs @ strip_control rest"
    by (simp add: strip_control_data)
  have s2: "IAC \<notin> set xs \<longrightarrow> strip_control xs = xs"
    using strip_control_data [of xs "[]"] by simp
  have s3: "IAC \<notin> set xs \<and> length cs < 2 \<longrightarrow> strip_control (xs @ IAC # cs) = xs"
  proof
    assume h: "IAC \<notin> set xs \<and> length cs < 2"
    then have "strip_control (xs @ IAC # cs) = xs @ strip_control (IAC # cs)"
      by (intro strip_control_data) simp
    also have "strip_control (IAC # cs) = []"
      using h by (simp only: strip_control_short)
    finally show "strip_control (xs @ IAC # cs) = xs" by simp
  qed
  show ?thesis using g n inv s1 s2 s3 by simp
qed

theorem get_bytes_strips_control_witness:
  "connected \<lparr>socket_fd = 3, connected = True\<rparr>
   \<and> 0 \<le> socket_fd \<lparr>socket_fd = 3, connected = True\<rparr>
   \<and> (0::int) < 5 \<and> nat 5 \<le> length [CHR 0x41, CHR 0xFF, CHR 0xFB, CHR 0x01, CHR 0x42]
   \<and> fst (ESP32WiFiIo_get_bytes \<lparr>socket_fd = 3, connected = True\<rparr>
             [CHR 0x41, CHR 0xFF, CHR 0xFB, CHR 0x01, CHR 0x42] 5 False) = 2
   \<and> take 2 (fst (snd (ESP32WiFiIo_get_bytes \<lparr>socket_fd = 3, connected = True\<rparr>
             [CHR 0x41, CHR 0xFF, CHR 0xFB, CHR 0x01, CHR 0x42] 5 False)))
       = [CHR 0x41, CHR 0x42]"
proof -
  let ?a = "\<lparr>socket_fd = 3, connected = True\<rparr>"
  let ?buf = "[CHR 0x41, CHR 0xFF, CHR 0xFB, CHR 0x01, CHR 0x42]"
  have h1: "connected ?a" by simp
  have h2: "0 \<le> socket_fd ?a" by simp
  have h3: "(0::int) < 5" by simp
  have h4: "nat 5 \<le> length ?buf" by simp
  have s: "strip_control (take (nat 5) ?buf) = [CHR 0x41, CHR 0x42]"
    by (simp add: IAC_def)
  from get_bytes_strips_control [OF h1 h2 h3 h4, where would_block = False, THEN conjunct1]
  show ?thesis using s by (simp split: prod.splits add: numeral_2_eq_2)
qed

end
